theory Spec2Isabelle
  imports Main
begin

section \<open>JavaScript values handled by SyncPlatform\<close>

text \<open>
  \<open>SyncPlatform.js\<close> reads a parsed JSON document and the process arguments. The values
  it can meet are those \<open>JSON.parse\<close> produces, \<open>undefined\<close> (an absent property, an
  absent argument), and what a property read finds up the prototype chain: a
  function or an object of the runtime that no JSON text denotes, such as
  \<open>Object.prototype.constructor\<close>. Such a \<open>Builtin\<close> is known by the string that
  \<open>ToString\<close> makes of it. An object is the list of its own properties in the order in
  which \<open>Object.keys\<close> enumerates them; a real object has no key twice. Numbers are
  whole numbers below \<open>2^53\<close> in size (beyond that JavaScript rounds to a double, and
  prints in exponent form from \<open>1e21\<close>; such numbers are outside the model); a string is
  a sequence of code units below 256.
\<close>

datatype jsval =
    Undefined
  | Null
  | Bool bool
  | Num int
  | Str string
  | Arr "jsval list"
  | Obj "(string \<times> jsval) list"
  | Builtin string

text \<open>
  The errors of \<open>SyncPlatform.js\<close>: the \<open>TypeError\<close> the language raises on a property
  read of \<open>undefined\<close> or \<open>null\<close> (and on a conversion that finds no primitive), the
  \<open>ExplorerError\<close> thrown by \<open>initialize\<close> with its message key, and the errors raised
  by the collaborators (file system, JSON parser, FabricUtils, SyncService, FabricEvent).
\<close>

datatype error =
    TypeError
  | ExplorerError string
  | CollaboratorError string

subsection \<open>Truthiness, decimal numerals, ToString\<close>

fun to_boolean :: "jsval \<Rightarrow> bool" where
  "to_boolean Undefined = False"
| "to_boolean Null = False"
| "to_boolean (Bool b) = b"
| "to_boolean (Num n) = (n \<noteq> 0)"
| "to_boolean (Str s) = (s \<noteq> [])"
| "to_boolean (Arr xs) = True"
| "to_boolean (Obj kvs) = True"
| "to_boolean (Builtin t) = True"

definition digit_chars :: string where
  "digit_chars = ''0123456789''"

fun string_of_nat :: "nat \<Rightarrow> string" where
  "string_of_nat n =
     (if n < 10 then [digit_chars ! n]
      else string_of_nat (n div 10) @ [digit_chars ! (n mod 10)])"

declare string_of_nat.simps [simp del]

definition string_of_int :: "int \<Rightarrow> string" where
  "string_of_int i = (if i < 0 then CHR ''-'' # string_of_nat (nat (- i)) else string_of_nat (nat i))"

text \<open>
  \<open>ToString\<close>. An array is joined with commas, \<open>undefined\<close> and \<open>null\<close> elements giving
  the empty string. An object from \<open>JSON.parse\<close> answers \<open>[object Object]\<close> through
  \<open>Object.prototype.toString\<close>, unless it has an own property \<open>toString\<close>: that one is
  data, not callable, \<open>valueOf\<close> gives no primitive either, and the conversion raises
  a \<open>TypeError\<close>.
\<close>

fun to_string :: "jsval \<Rightarrow> error + string"
  and join_elements :: "jsval list \<Rightarrow> error + string" where
  "to_string Undefined = Inr ''undefined''"
| "to_string Null = Inr ''null''"
| "to_string (Bool b) = Inr (if b then ''true'' else ''false'')"
| "to_string (Num n) = Inr (string_of_int n)"
| "to_string (Str s) = Inr s"
| "to_string (Arr xs) = join_elements xs"
| "to_string (Obj kvs) =
     (if ''toString'' \<in> set (map fst kvs) then Inl TypeError else Inr ''[object Object]'')"
| "to_string (Builtin t) = Inr t"
| "join_elements [] = Inr []"
| "join_elements (x # xs) =
     (case (if x = Undefined \<or> x = Null then Inr [] else to_string x) of
        Inl e \<Rightarrow> Inl e
      | Inr s \<Rightarrow>
          (if xs = [] then Inr s
           else (case join_elements xs of
                   Inl e \<Rightarrow> Inl e
                 | Inr r \<Rightarrow> Inr (s @ '','' @ r))))"

subsection \<open>parseInt with radix 10\<close>

text \<open>
  \<open>parseInt(v, 10)\<close>: the string of \<open>v\<close>, leading white space dropped, an optional
  sign, then the longest run of decimal digits. No digit gives \<open>NaN\<close>, here \<open>None\<close>.
\<close>

definition is_white_space :: "char \<Rightarrow> bool" where
  "is_white_space c = (of_char c \<in> {9, 10, 11, 12, 13, 32, 160 :: nat})"

definition is_digit :: "char \<Rightarrow> bool" where
  "is_digit c = (c \<in> set digit_chars)"

definition digit_value :: "char \<Rightarrow> int" where
  "digit_value c = int (of_char c) - 48"

definition digits_value :: "string \<Rightarrow> int" where
  "digits_value ds = foldl (\<lambda>acc c. acc * 10 + digit_value c) 0 ds"

definition parse_digits :: "string \<Rightarrow> int option" where
  "parse_digits s =
     (let z = takeWhile is_digit s in if z = [] then None else Some (digits_value z))"

definition parseInt_string :: "string \<Rightarrow> int option" where
  "parseInt_string input =
     (let s = dropWhile is_white_space input in
      case s of
        [] \<Rightarrow> None
      | c # rest \<Rightarrow>
          (if c = CHR ''-'' then map_option uminus (parse_digits rest)
           else if c = CHR ''+'' then parse_digits rest
           else parse_digits s))"

definition parseInt :: "jsval \<Rightarrow> error + int option" where
  "parseInt v = (case to_string v of Inl e \<Rightarrow> Inl e | Inr s \<Rightarrow> Inr (parseInt_string s))"

subsection \<open>Property reads and Object.keys\<close>

text \<open>
  \<open>v[k]\<close> raises a \<open>TypeError\<close> on \<open>undefined\<close> and \<open>null\<close>. On any other value the read
  finds an own property first: arrays and strings own their indices and \<open>length\<close>, an
  object owns what its JSON text lists. Where the value owns no such property the read
  goes up the prototype chain; what it finds there belongs to the runtime and is a
  parameter, \<open>inh v k\<close>. A property found nowhere reads as \<open>undefined\<close>.
\<close>

definition indexed :: "'a list \<Rightarrow> (string \<times> 'a) list" where
  "indexed xs = zip (map string_of_nat [0..<length xs]) xs"

fun own_prop :: "jsval \<Rightarrow> string \<Rightarrow> jsval option" where
  "own_prop (Str s) k =
     (if k = ''length'' then Some (Num (int (length s)))
      else map_option (\<lambda>c. Str [c]) (map_of (indexed s) k))"
| "own_prop (Arr xs) k =
     (if k = ''length'' then Some (Num (int (length xs))) else map_of (indexed xs) k)"
| "own_prop (Obj kvs) k = map_of kvs k"
| "own_prop v k = None"

definition get_prop :: "(jsval \<Rightarrow> string \<Rightarrow> jsval option) \<Rightarrow> jsval \<Rightarrow> string \<Rightarrow> error + jsval" where
  "get_prop inh v k =
     (if v = Undefined \<or> v = Null then Inl TypeError
      else (case own_prop v k of
              Some x \<Rightarrow> Inr x
            | None \<Rightarrow> (case inh v k of Some x \<Rightarrow> Inr x | None \<Rightarrow> Inr Undefined)))"

text \<open>\<open>v[w]\<close> for a key that is itself a value: the key is the string of \<open>w\<close>.\<close>

definition get_prop_at :: "(jsval \<Rightarrow> string \<Rightarrow> jsval option) \<Rightarrow> jsval \<Rightarrow> jsval \<Rightarrow> error + jsval" where
  "get_prop_at inh v w = (case to_string w of Inl e \<Rightarrow> Inl e | Inr k \<Rightarrow> get_prop inh v k)"

text \<open>
  \<open>Object.keys\<close> lists the own enumerable properties; those of the built-in functions
  and objects are not enumerable.
\<close>

fun object_keys :: "jsval \<Rightarrow> error + string list" where
  "object_keys Undefined = Inl TypeError"
| "object_keys Null = Inl TypeError"
| "object_keys (Bool b) = Inr []"
| "object_keys (Num n) = Inr []"
| "object_keys (Str s) = Inr (map fst (indexed s))"
| "object_keys (Arr xs) = Inr (map fst (indexed xs))"
| "object_keys (Obj kvs) = Inr (map fst kvs)"
| "object_keys (Builtin t) = Inr []"

text \<open>\<open>keys[0]\<close>: the first key, \<open>undefined\<close> when there is none.\<close>

definition first_key :: "string list \<Rightarrow> jsval" where
  "first_key ks = (case ks of [] \<Rightarrow> Undefined | k # _ \<Rightarrow> Str k)"

section \<open>The platform object and its collaborators\<close>

text \<open>
  A channel object is known by its identity. The client built by FabricUtils answers
  \<open>getChannels()\<close> with a Map from channel name to channel object, kept here as the
  list of its entries in iteration order (a Map has no key twice).
\<close>

type_synonym channel = nat

record fabric_client =
  getChannels :: "(string \<times> channel) list"

text \<open>
  Modelled from the spec: FabricEvent (the event hub) is missing from the sources. The
  spec's EventStreamRegistry owns one event stream per channel; \<open>streams\<close> lists the
  channels whose stream is active. The platform has no event stream but through its
  event hub.
\<close>

record event_hub =
  streams :: "string list"

text \<open>
  A call returns or throws; for an \<open>async\<close> method, \<open>Threw\<close> is the rejection of its
  promise.
\<close>

datatype outcome = Returned | Threw error


text \<open>The calls that leave the platform object, in the order they are made.\<close>

datatype call =
    SetOrgEnrolmentPath jsval
  | CreateFabricClient jsval jsval
  | SynchNetworkConfigToDB
  | NewFabricEvent
  | HubInitialize
  | SetTimeout int
  | HubSynchBlocks
  | IsChannelEventHubConnected string bool
  | SynchBlocks string channel
  | ConnectChannelEventHub string
  | DisconnectEventHubs

text \<open>
  The fields the constructor sets on \<open>this\<close> (\<open>sender\<close>, \<open>persistence\<close> and \<open>syncService\<close>
  are never assigned again and are left out), and the state of the process around
  it: the settings written to \<open>global.hfc.config\<close>, the pending timeouts of the \<open>sync\<close>
  callback by due time, the clock in milliseconds, and the calls made so far.
\<close>

record state =
  network_name :: jsval
  client_name :: jsval
  client :: "fabric_client option"
  eventHub :: "event_hub option"
  blocksSyncTime :: int
  client_configs :: jsval
  hfc_config :: "(string \<times> jsval) list"
  timers :: "nat list"
  now :: nat
  calls :: "call list"

definition constructor :: state where
  "constructor =
     \<lparr>network_name = Null, client_name = Null, client = None, eventHub = None,
      blocksSyncTime = 60000, client_configs = Null,
      hfc_config = [], timers = [], now = 0, calls = []\<rparr>"

text \<open>
  What the runtime and the collaborators answer. \<open>inherited\<close> is what a property read
  finds up the prototype chain of a value that does not own the property.
  \<open>config_document\<close> is \<open>JSON.parse(fs.readFileSync(config_path))\<close>; \<open>NETWORK_CONFIGS\<close> is
  the key held by FabricConst, which is not among the sources. \<open>createFabricClient\<close>
  may hand back no client. \<open>hub_initialize\<close> gives the streams the hub has opened and the error, if any,
  that ended its initialization. \<open>hub_isChannelEventHubConnected\<close> and \<open>synchBlocks\<close>
  are the answers of the hub and of the sync service during one run of the channel
  loop; \<open>synchBlocks\<close> gives the error of a failed synchronization.
  \<open>hub_synchBlocks\<close> gives the error that the call \<open>eventHub.synchBlocks()\<close> made at
  a given time throws at the call itself, if any; what happens to the promise it
  hands back is not seen by the caller, who drops it. \<open>disconnect_effort\<close> is the
  effort of the hub's \<open>disconnectEventHubs\<close> on the streams that are active.
\<close>

record env =
  inherited :: "jsval \<Rightarrow> string \<Rightarrow> jsval option"
  config_document :: "error + jsval"
  NETWORK_CONFIGS :: string
  setOrgEnrolmentPath :: "jsval \<Rightarrow> error + jsval"
  createFabricClient :: "jsval \<Rightarrow> jsval \<Rightarrow> error + fabric_client option"
  synchNetworkConfigToDB :: "fabric_client \<Rightarrow> error + bool"
  hub_initialize :: "fabric_client \<Rightarrow> string list \<times> error option"
  hub_isChannelEventHubConnected :: "string \<Rightarrow> bool"
  synchBlocks :: "string \<Rightarrow> channel \<Rightarrow> error option"
  hub_synchBlocks :: "nat \<Rightarrow> error option"
  disconnect_effort :: "string list \<Rightarrow> outcome \<times> string list"

section \<open>setBlocksSyncTime\<close>

definition setBlocksSyncTime :: "jsval \<Rightarrow> state \<Rightarrow> outcome \<times> state" where
  "setBlocksSyncTime v s =
     (if to_boolean v then
        (case parseInt v of
           Inl e \<Rightarrow> (Threw e, s)
         | Inr None \<Rightarrow> (Returned, s)
         | Inr (Some time) \<Rightarrow> (Returned, s\<lparr>blocksSyncTime := time * 60 * 1000\<rparr>))
      else (Returned, s))"

section \<open>initialize\<close>

text \<open>
  Lines 66 to 79: the network and the client are taken from the arguments, or from
  the configuration where the arguments do not name them. Each assignment to \<open>this\<close>
  that precedes a throw stays made.
\<close>

definition select_network_client ::
    "env \<Rightarrow> jsval \<Rightarrow> string list \<Rightarrow> state \<Rightarrow> outcome \<times> state" where
  "select_network_client env network_configs args s =
     (case args of
        [] \<Rightarrow>
          (case object_keys network_configs of
             Inl e \<Rightarrow> (Threw e, s)
           | Inr ks \<Rightarrow>
               (let s1 = s\<lparr>network_name := first_key ks\<rparr> in
                case get_prop_at (inherited env) network_configs (network_name s1) of
                  Inl e \<Rightarrow> (Threw e, s1)
                | Inr network \<Rightarrow>
                    (case get_prop (inherited env) network ''name'' of
                       Inl e \<Rightarrow> (Threw e, s1)
                     | Inr name \<Rightarrow> (Returned, s1\<lparr>client_name := name\<rparr>))))
      | [a] \<Rightarrow>
          (let s1 = s\<lparr>network_name := Str a\<rparr> in
           case get_prop_at (inherited env) network_configs (network_name s1) of
             Inl e \<Rightarrow> (Threw e, s1)
           | Inr network \<Rightarrow>
               (case get_prop (inherited env) network ''clients'' of
                  Inl e \<Rightarrow> (Threw e, s1)
                | Inr clients \<Rightarrow>
                    (case object_keys clients of
                       Inl e \<Rightarrow> (Threw e, s1)
                     | Inr ks \<Rightarrow> (Returned, s1\<lparr>client_name := first_key ks\<rparr>))))
      | a # b # _ \<Rightarrow> (Returned, s\<lparr>network_name := Str a, client_name := Str b\<rparr>))"

text \<open>
  Lines 92 and 93: \<open>global.hfc.config.set\<close>, on the configuration object the process
  has set up before. The discovery cache lives as long as one sync interval.
\<close>

definition hfc_config_set :: "string \<Rightarrow> jsval \<Rightarrow> state \<Rightarrow> state" where
  "hfc_config_set k v s = s\<lparr>hfc_config := (k, v) # filter (\<lambda>kv. fst kv \<noteq> k) (hfc_config s)\<rparr>"

definition configure_discovery :: "state \<Rightarrow> state" where
  "configure_discovery s =
     hfc_config_set ''initialize-with-discovery'' (Bool True)
       (hfc_config_set ''discovery-cache-life'' (Num (blocksSyncTime s)) s)"

text \<open>
  \<open>setTimeout(sync, delay)\<close>. The runtime fires the callback once, \<open>delay\<close> milliseconds
  later; Node.js takes a delay below 1 or above \<open>2^31 - 1\<close> as 1.
\<close>

definition timeout_delay :: "int \<Rightarrow> nat" where
  "timeout_delay d = (if 1 \<le> d \<and> d \<le> 2147483647 then nat d else 1)"

definition setTimeout_sync :: "int \<Rightarrow> state \<Rightarrow> state" where
  "setTimeout_sync d s =
     s\<lparr>timers := timers s @ [now s + timeout_delay d], calls := calls s @ [SetTimeout d]\<rparr>"

text \<open>
  Lines 108 to 127, with \<open>c\<close> the client just built: the registration of the network
  in the database; when it answers falsy, \<open>initialize\<close> returns there. Otherwise the event hub is built and initialized,
  and the first \<open>sync\<close> is handed to \<open>setTimeout\<close>.
\<close>

definition register_and_start :: "env \<Rightarrow> fabric_client \<Rightarrow> state \<Rightarrow> outcome \<times> state" where
  "register_and_start env c s =
     (let s1 = s\<lparr>calls := calls s @ [SynchNetworkConfigToDB]\<rparr> in
      case synchNetworkConfigToDB env c of
        Inl e \<Rightarrow> (Threw e, s1)
      | Inr res \<Rightarrow>
          (if \<not> res then (Returned, s1)
           else
             (let (opened, failure) = hub_initialize env c;
                  s2 = s1\<lparr>eventHub := Some \<lparr>streams = opened\<rparr>,
                           calls := calls s1 @ [NewFabricEvent, HubInitialize]\<rparr>
              in case failure of
                   Some e \<Rightarrow> (Threw e, s2)
                 | None \<Rightarrow> (Returned, setTimeout_sync (blocksSyncTime s2) s2))))"

text \<open>
  Lines 95 to 105: the client configuration of the selected network goes through
  \<open>FabricUtils.setOrgEnrolmentPath\<close>, and \<open>FabricUtils.createFabricClient\<close> builds the
  client; no client is an \<open>ExplorerError\<close>, and with a client the run goes on to the
  registration.
\<close>

definition build_client_and_start :: "env \<Rightarrow> jsval \<Rightarrow> state \<Rightarrow> outcome \<times> state" where
  "build_client_and_start env network_configs s =
     (case get_prop_at (inherited env) network_configs (network_name s) of
        Inl e \<Rightarrow> (Threw e, s)
      | Inr cfg \<Rightarrow>
          (let s1 = s\<lparr>calls := calls s @ [SetOrgEnrolmentPath cfg]\<rparr> in
           case setOrgEnrolmentPath env cfg of
             Inl e \<Rightarrow> (Threw e, s1)
           | Inr cfg' \<Rightarrow>
               (let s2 = s1\<lparr>client_configs := cfg',
                          calls := calls s1 @ [CreateFabricClient cfg' (client_name s1)]\<rparr> in
                case createFabricClient env cfg' (client_name s2) of
                  Inl e \<Rightarrow> (Threw e, s2)
                | Inr c \<Rightarrow>
                    (let s3 = s2\<lparr>client := c\<rparr> in
                     case c of
                       None \<Rightarrow> (Threw (ExplorerError ''ERROR_2011''), s3)
                     | Some cl \<Rightarrow> register_and_start env cl s3))))"

definition initialize :: "env \<Rightarrow> string list \<Rightarrow> state \<Rightarrow> outcome \<times> state" where
  "initialize env args s =
     (case config_document env of
        Inl e \<Rightarrow> (Threw e, s)
      | Inr all_config \<Rightarrow>
          (case get_prop (inherited env) all_config (NETWORK_CONFIGS env) of
             Inl e \<Rightarrow> (Threw e, s)
           | Inr network_configs \<Rightarrow>
               (case select_network_client env network_configs args s of
                  (Threw e, s1) \<Rightarrow> (Threw e, s1)
                | (Returned, s1) \<Rightarrow>
                    (case setBlocksSyncTime all_config s1 of
                       (Threw e, s2) \<Rightarrow> (Threw e, s2)
                     | (Returned, s2) \<Rightarrow>
                         build_client_and_start env network_configs
                           (configure_discovery s2)))))"

section \<open>The channel loop, the timer callback and destroy\<close>

text \<open>
  Lines 139 to 150. The loop visits the entries of \<open>getChannels()\<close> in order. For each
  it asks the hub for the status of the channel; a connected channel is synchronized
  and the loop waits for the result, any other is handed to
  \<open>connectChannelEventHub\<close>. A synchronization that fails ends the loop with its error:
  the \<open>await\<close> stands in no \<open>try\<close>. The hub answers the status question with a boolean
  and its \<open>connectChannelEventHub\<close> returns at once, as the spec has them.
\<close>

fun channel_loop :: "env \<Rightarrow> (string \<times> channel) list \<Rightarrow> call list \<times> error option" where
  "channel_loop env [] = ([], None)"
| "channel_loop env ((channel_name, channel) # rest) =
     (if hub_isChannelEventHubConnected env channel_name then
        (case synchBlocks env channel_name channel of
           Some e \<Rightarrow>
             ([IsChannelEventHubConnected channel_name True,
               SynchBlocks channel_name channel], Some e)
         | None \<Rightarrow>
             (case channel_loop env rest of
                (cs, r) \<Rightarrow>
                  (IsChannelEventHubConnected channel_name True #
                   SynchBlocks channel_name channel # cs, r)))
      else
        (case channel_loop env rest of
           (cs, r) \<Rightarrow>
             (IsChannelEventHubConnected channel_name False #
              ConnectChannelEventHub channel_name # cs, r)))"

definition isChannelEventHubConnected :: "env \<Rightarrow> state \<Rightarrow> outcome \<times> state" where
  "isChannelEventHubConnected env s =
     (case client s of
        None \<Rightarrow> (Threw TypeError, s)
      | Some c \<Rightarrow>
          (case getChannels c of
             [] \<Rightarrow> (Returned, s)
           | entry # entries \<Rightarrow>
               (case eventHub s of
                  None \<Rightarrow> (Threw TypeError, s)
                | Some h \<Rightarrow>
                    (case channel_loop env (entry # entries) of
                       (cs, r) \<Rightarrow>
                         ((case r of None \<Rightarrow> Returned | Some e \<Rightarrow> Threw e),
                          s\<lparr>calls := calls s @ cs\<rparr>)))))"

text \<open>
  The calls one visit of the loop makes for an entry: the status question, then the
  synchronization of a connected channel or the reconnection of any other.
\<close>

definition visit :: "env \<Rightarrow> string \<times> channel \<Rightarrow> call list" where
  "visit env entry =
     (case entry of
        (channel_name, channel) \<Rightarrow>
          (if hub_isChannelEventHubConnected env channel_name
           then [IsChannelEventHubConnected channel_name True, SynchBlocks channel_name channel]
           else [IsChannelEventHubConnected channel_name False, ConnectChannelEventHub channel_name]))"

text \<open>
  Lines 117 to 125, the callback \<open>sync\<close>: it calls \<open>this.eventHub.synchBlocks()\<close>, does
  not wait for what the call hands back, and passes itself to \<open>setTimeout\<close> again.
\<close>

definition sync :: "env \<Rightarrow> state \<Rightarrow> outcome \<times> state" where
  "sync env s =
     (case eventHub s of
        None \<Rightarrow> (Threw TypeError, s)
      | Some h \<Rightarrow>
          (let s1 = s\<lparr>calls := calls s @ [HubSynchBlocks]\<rparr> in
           case hub_synchBlocks env (now s1) of
             Some e \<Rightarrow> (Threw e, s1)
           | None \<Rightarrow> (Returned, setTimeout_sync (blocksSyncTime s1) s1)))"



section \<open>Channel loops that overlap\<close>

text \<open>
  \<open>isChannelEventHubConnected\<close> is an \<open>async\<close> method: a call runs the loop up to its
  first \<open>await\<close>, which is the synchronization of the first connected channel, and
  hands control back; the loop goes on when that synchronization has settled. A
  suspended loop is the channel it waits for and the entries it has still to visit.
\<close>

datatype suspended = Awaiting string channel "(string \<times> channel) list"

fun run_to_await :: "env \<Rightarrow> (string \<times> channel) list \<Rightarrow> call list \<times> suspended option" where
  "run_to_await env [] = ([], None)"
| "run_to_await env ((channel_name, channel) # rest) =
     (if hub_isChannelEventHubConnected env channel_name then
        ([IsChannelEventHubConnected channel_name True, SynchBlocks channel_name channel],
         Some (Awaiting channel_name channel rest))
      else
        (case run_to_await env rest of
           (cs, k) \<Rightarrow>
             (IsChannelEventHubConnected channel_name False #
              ConnectChannelEventHub channel_name # cs, k)))"

text \<open>
  What can happen around a client with the given channels: the loop is called once
  more (\<open>Tick\<close>), or the synchronization the \<open>i\<close>-th suspended loop waits for settles,
  with an error or without. A loop whose synchronization failed is over; any other
  runs on to its next \<open>await\<close>. The state is the suspended loops and the calls made.
\<close>

datatype event = Tick | Settled nat "error option"

definition resume :: "suspended option \<Rightarrow> suspended list" where
  "resume k = (case k of None \<Rightarrow> [] | Some w \<Rightarrow> [w])"

fun step :: "env \<Rightarrow> (string \<times> channel) list \<Rightarrow> suspended list \<times> call list \<Rightarrow> event \<Rightarrow>
    suspended list \<times> call list" where
  "step env entries (ws, made) Tick =
     (case run_to_await env entries of
        (cs, k) \<Rightarrow> (ws @ resume k, made @ cs))"
| "step env entries (ws, made) (Settled i failure) =
     (if i < length ws then
        (case ws ! i of
           Awaiting channel_name channel rest \<Rightarrow>
             (case failure of
                Some e \<Rightarrow> (take i ws @ drop (Suc i) ws, made)
              | None \<Rightarrow>
                  (case run_to_await env rest of
                     (cs, k) \<Rightarrow> (take i ws @ resume k @ drop (Suc i) ws, made @ cs))))
      else (ws, made))"

definition run_events :: "env \<Rightarrow> (string \<times> channel) list \<Rightarrow> event list \<Rightarrow> suspended list \<times> call list" where
  "run_events env entries evs = foldl (step env entries) ([], []) evs"

text \<open>The synchronizations in flight: one for each suspended loop.\<close>

fun awaited :: "suspended \<Rightarrow> string" where
  "awaited (Awaiting channel_name channel rest) = channel_name"

definition in_flight :: "suspended list \<times> call list \<Rightarrow> string list" where
  "in_flight st = map awaited (fst st)"

section \<open>Concrete inputs\<close>

text \<open>
  A configuration with one network \<open>net1\<close>, whose default client is \<open>clientA\<close>, and a
  sync interval of five minutes written beside it.
\<close>

definition example_config :: jsval where
  "example_config =
     Obj [(''network-configs'',
           Obj [(''net1'',
                 Obj [(''name'', Str ''clientA''),
                      (''clients'', Obj [(''clientA'', Obj []), (''clientB'', Obj [])])])]),
          (''syncInterval'', Str ''5'')]"

definition example_client :: fabric_client where
  "example_client = \<lparr>getChannels = [(''chA'', 1), (''chB'', 2)]\<rparr>"

text \<open>
  What an object made by \<open>JSON.parse\<close> inherits from \<open>Object.prototype\<close> in Node.js: the
  constructor \<open>Object\<close>, the prototype object itself under \<open>__proto__\<close>, and the methods.
  Of the members themselves the examples read only \<open>clients\<close>, which none of them has;
  their other properties are not listed, and the examples read no property of a
  value of any other kind.
\<close>

definition object_prototype_methods :: "string list" where
  "object_prototype_methods =
     [''__defineGetter__'', ''__defineSetter__'', ''hasOwnProperty'', ''__lookupGetter__'',
      ''__lookupSetter__'', ''isPrototypeOf'', ''propertyIsEnumerable'', ''toString'',
      ''valueOf'', ''toLocaleString'']"

definition object_prototype :: "jsval \<Rightarrow> string \<Rightarrow> jsval option" where
  "object_prototype v k =
     (case v of
        Obj kvs \<Rightarrow>
          (if k = ''constructor'' then Some (Builtin ''function Object() { [native code] }'')
           else if k = ''__proto__'' then Some (Builtin ''[object Object]'')
           else if k \<in> set object_prototype_methods
             then Some (Builtin (''function '' @ k @ ''() { [native code] }''))
           else None)
      | _ \<Rightarrow> None)"

text \<open>Collaborators that all succeed, with both channels connected.\<close>

definition example_env :: env where
  "example_env =
     \<lparr>inherited = object_prototype,
      config_document = Inr example_config,
      NETWORK_CONFIGS = ''network-configs'',
      setOrgEnrolmentPath = (\<lambda>cfg. Inr cfg),
      createFabricClient = (\<lambda>cfg name. Inr (Some example_client)),
      synchNetworkConfigToDB = (\<lambda>c. Inr True),
      hub_initialize = (\<lambda>c. (map fst (getChannels c), None)),
      hub_isChannelEventHubConnected = (\<lambda>n. True),
      synchBlocks = (\<lambda>n ch. None),
      hub_synchBlocks = (\<lambda>t. None),
      disconnect_effort = (\<lambda>cs. (Returned, []))\<rparr>"

text \<open>The same, with the synchronization of \<open>chA\<close> failing and \<open>chB\<close> disconnected.\<close>

definition failing_env :: env where
  "failing_env =
     example_env\<lparr>hub_isChannelEventHubConnected := (\<lambda>n. n = ''chA''),
                 synchBlocks := (\<lambda>n ch. if n = ''chA'' then Some (CollaboratorError ''sync'') else None)\<rparr>"

text \<open>The same as \<open>example_env\<close>, with the registration answering \<open>false\<close>.\<close>

definition unregistered_env :: env where
  "unregistered_env = example_env\<lparr>synchNetworkConfigToDB := (\<lambda>c. Inr False)\<rparr>"

text \<open>The platform after \<open>initialize\<close> with no argument.\<close>

definition started :: state where
  "started = snd (initialize example_env [] constructor)"

text \<open>
  A platform whose interval has been set to 35792 minutes before \<open>initialize\<close>, and that
  platform after \<open>initialize\<close> with no argument.
\<close>

definition preset :: state where
  "preset = snd (setBlocksSyncTime (Str ''35792'') constructor)"

definition overdue :: state where
  "overdue = snd (initialize example_env [] preset)"


text \<open>
  Further collaborators. \<open>strict_env\<close> builds a client only for the clients the
  configuration lists; in \<open>mixed_env\<close> only \<open>chA\<close> is connected; in \<open>late_failure_env\<close>
  both channels are connected and the synchronization of \<open>chB\<close> fails.
\<close>

definition strict_env :: env where
  "strict_env =
     example_env\<lparr>createFabricClient :=
       (\<lambda>cfg name. if name = Str ''clientA'' \<or> name = Str ''clientB''
                    then Inr (Some example_client) else Inr None)\<rparr>"


definition late_failure_env :: env where
  "late_failure_env =
     example_env\<lparr>synchBlocks := (\<lambda>n ch. if n = ''chB'' then Some (CollaboratorError ''sync'') else None)\<rparr>"

section \<open>The timer queue of the runtime\<close>

text \<open>
  The runtime fires a pending timeout when the clock has reached its due time, the
  earliest first. \<open>run_timers env t s\<close> lets the clock run up to \<open>t\<close>: every timeout due
  by then fires \<open>sync\<close>, which may add the next one.
\<close>

definition due_timer :: "nat \<Rightarrow> state \<Rightarrow> nat option" where
  "due_timer t s =
     (case filter (\<lambda>d. d \<le> t) (timers s) of
        [] \<Rightarrow> None
      | d # ds \<Rightarrow> Some (fold min ds d))"

definition fire :: "env \<Rightarrow> nat \<Rightarrow> state \<Rightarrow> state" where
  "fire env d s = snd (sync env (s\<lparr>timers := remove1 d (timers s), now := max d (now s)\<rparr>))"

definition pending_work :: "nat \<Rightarrow> state \<Rightarrow> nat" where
  "pending_work t s = sum_list (map (\<lambda>d. Suc t - d) (timers s))"

lemma fold_min_mem: "fold min ds (d::nat) \<in> set (d # ds)"
  by (induction ds arbitrary: d) (auto simp: min_def)

lemma due_timer_Some:
  assumes "due_timer t s = Some d"
  shows "d \<in> set (timers s) \<and> d \<le> t"
proof -
  from assms obtain x xs
    where f: "filter (\<lambda>d. d \<le> t) (timers s) = x # xs" and d: "d = fold min xs x"
    by (auto simp: due_timer_def split: list.splits)
  have "d \<in> set (x # xs)" using d fold_min_mem by blast
  then have "d \<in> set (filter (\<lambda>d. d \<le> t) (timers s))" using f by simp
  then show ?thesis by simp
qed

lemma timeout_delay_pos: "0 < timeout_delay d"
  by (simp add: timeout_delay_def)

lemma timers_sync:
  "timers (snd (sync env s)) = timers s \<or>
   timers (snd (sync env s)) = timers s @ [now s + timeout_delay (blocksSyncTime s)]"
  by (simp add: sync_def setTimeout_sync_def Let_def split: option.splits)

lemma pending_work_fire:
  assumes "due_timer t s = Some d"
  shows "pending_work t (fire env d s) < pending_work t s"
proof -
  have mem: "d \<in> set (timers s)" and le: "d \<le> t"
    using due_timer_Some[OF assms] by auto
  let ?s' = "s\<lparr>timers := remove1 d (timers s), now := max d (now s)\<rparr>"
  let ?f = "\<lambda>x. Suc t - x"
  have split: "sum_list (map ?f (timers s)) = ?f d + sum_list (map ?f (remove1 d (timers s)))"
    using mem by (rule sum_list_map_remove1)
  have new: "?f (now ?s' + timeout_delay (blocksSyncTime ?s')) < ?f d"
    using le timeout_delay_pos[of "blocksSyncTime ?s'"] by simp
  from timers_sync[of env ?s'] show ?thesis
  proof
    assume "timers (snd (sync env ?s')) = timers ?s'"
    then show ?thesis using split le by (simp add: pending_work_def fire_def)
  next
    assume "timers (snd (sync env ?s')) =
            timers ?s' @ [now ?s' + timeout_delay (blocksSyncTime ?s')]"
    then show ?thesis using split new by (simp add: pending_work_def fire_def)
  qed
qed

function run_timers :: "env \<Rightarrow> nat \<Rightarrow> state \<Rightarrow> state" where
  "run_timers env t s =
     (case due_timer t s of
        None \<Rightarrow> s\<lparr>now := max t (now s)\<rparr>
      | Some d \<Rightarrow> run_timers env t (fire env d s))"
  by pat_completeness auto
termination
  by (relation "measure (\<lambda>(env, t, s). pending_work t s)") (auto simp: pending_work_fire)

declare run_timers.simps [simp del]

section \<open>The sync interval\<close>

lemma get_prop_Obj: "\<exists>v. get_prop inh (Obj kvs) k = Inr v"
  by (simp add: get_prop_def split: option.splits)

lemma get_prop_own:
  assumes "map_of kvs k = Some v"
  shows "get_prop inh (Obj kvs) k = Inr v"
  using assms by (simp add: get_prop_def)

lemma get_prop_Undefined: "get_prop inh Undefined k = Inl TypeError"
  by (simp add: get_prop_def)

lemmas parse_defs = parseInt_def parseInt_string_def parse_digits_def is_white_space_def
  is_digit_def digit_chars_def digits_value_def digit_value_def

lemma parseInt_5: "parseInt (Str ''5'') = Inr (Some 5)"
  by (simp add: parse_defs)

lemma parseInt_0: "parseInt (Str ''0'') = Inr (Some 0)"
  by (simp add: parse_defs)

lemma parseInt_abc: "parseInt (Str ''abc'') = Inr None"
  by (simp add: parse_defs)

lemma parseInt_Obj:
  "parseInt (Obj kvs) = (if ''toString'' \<in> set (map fst kvs) then Inl TypeError else Inr None)"
  by (simp add: parse_defs)

text \<open>
  Claim C4, as amended. \<open>setBlocksSyncTime\<close> reads its input as a whole number of
  minutes and stores it in milliseconds: \<open>"5"\<close> gives 300000; \<open>"abc"\<close> and an absent
  value leave the interval as it is, 60000 after the constructor. The string \<open>"0"\<close>
  is not rejected: it is truthy and parses, and the interval becomes 0. Only the
  number 0, being falsy, is skipped.
\<close>

theorem setBlocksSyncTime_cases:
  "setBlocksSyncTime (Str ''5'') s = (Returned, s\<lparr>blocksSyncTime := 300000\<rparr>) \<and>
   setBlocksSyncTime (Str ''abc'') s = (Returned, s) \<and>
   setBlocksSyncTime Undefined s = (Returned, s) \<and>
   setBlocksSyncTime (Str ''0'') s = (Returned, s\<lparr>blocksSyncTime := 0\<rparr>) \<and>
   setBlocksSyncTime (Num 0) s = (Returned, s) \<and>
   blocksSyncTime constructor = 60000"
  by (simp add: setBlocksSyncTime_def parseInt_5 parseInt_0 parseInt_abc constructor_def)

text \<open>
  Claim C4 as the spec has it says that \<open>"0"\<close> is rejected and the default kept, so
  that the interval stays positive. On a fresh platform \<open>"0"\<close> sets the interval to 0.
\<close>

theorem zero_minutes_accepted:
  "blocksSyncTime (snd (setBlocksSyncTime (Str ''0'') constructor)) = 0 \<and>
   blocksSyncTime constructor = 60000"
  by (simp add: setBlocksSyncTime_def parseInt_0 constructor_def)

lemma setBlocksSyncTime_Obj:
  "setBlocksSyncTime (Obj kvs) s =
     (if ''toString'' \<in> set (map fst kvs) then (Threw TypeError, s) else (Returned, s))"
  by (simp add: setBlocksSyncTime_def parseInt_Obj)

lemma select_blocksSyncTime:
  "blocksSyncTime (snd (select_network_client env nc args s)) = blocksSyncTime s"
  by (simp add: select_network_client_def Let_def split: list.splits sum.splits)

lemma register_blocksSyncTime:
  "blocksSyncTime (snd (register_and_start env c s)) = blocksSyncTime s"
  by (simp add: register_and_start_def setTimeout_sync_def Let_def
      split: sum.splits option.splits prod.splits)

lemma build_blocksSyncTime:
  "blocksSyncTime (snd (build_client_and_start env nc s)) = blocksSyncTime s"
  by (simp add: build_client_and_start_def register_blocksSyncTime Let_def
      split: sum.splits option.splits)

lemma initialize_Obj_blocksSyncTime:
  assumes "config_document env = Inr (Obj kvs)"
  shows "blocksSyncTime (snd (initialize env args s)) = blocksSyncTime s"
proof -
  obtain nc where nc: "get_prop (inherited env) (Obj kvs) (NETWORK_CONFIGS env) = Inr nc"
    using get_prop_Obj by blast
  obtain r1 s1 where sel: "select_network_client env nc args s = (r1, s1)"
    by fastforce
  have b1: "blocksSyncTime s1 = blocksSyncTime s"
    using select_blocksSyncTime[of env nc args s] sel by simp
  show ?thesis
  proof (cases r1)
    case (Threw e)
    then show ?thesis
      using assms nc sel b1 by (simp add: initialize_def)
  next
    case Returned
    show ?thesis
    proof (cases "''toString'' \<in> set (map fst kvs)")
      case True
      then show ?thesis
        using assms nc sel b1 Returned
        by (simp add: initialize_def setBlocksSyncTime_Obj)
    next
      case False
      then show ?thesis
        using assms nc sel b1 Returned
        by (simp add: initialize_def setBlocksSyncTime_Obj build_blocksSyncTime
            configure_discovery_def hfc_config_set_def)
    qed
  qed
qed

text \<open>
  Claim C10. \<open>initialize\<close> hands the whole parsed configuration object to
  \<open>setBlocksSyncTime\<close>. The string of an object has no leading digit, so
  \<open>setBlocksSyncTime\<close> stores nothing, and whatever the object holds, and however
  \<open>initialize\<close> ends, the interval of a fresh platform is still 60000 afterwards.
\<close>

theorem initialize_keeps_default_interval:
  assumes "config_document env = Inr (Obj kvs)"
  shows "blocksSyncTime (snd (setBlocksSyncTime (Obj kvs) s)) = blocksSyncTime s \<and>
         blocksSyncTime (snd (initialize env args constructor)) = 60000"
  using initialize_Obj_blocksSyncTime[OF assms, of args constructor]
  by (simp add: setBlocksSyncTime_Obj constructor_def)

theorem initialize_keeps_default_interval_witness:
  "config_document example_env = Inr example_config \<and>
   get_prop (inherited example_env) example_config ''syncInterval'' = Inr (Str ''5'') \<and>
   blocksSyncTime (snd (initialize example_env [] constructor)) = 60000"
proof -
  have doc: "config_document example_env =
      Inr (Obj [(''network-configs'',
            Obj [(''net1'',
                  Obj [(''name'', Str ''clientA''),
                       (''clients'', Obj [(''clientA'', Obj []), (''clientB'', Obj [])])])]),
           (''syncInterval'', Str ''5'')])"
    by (simp add: example_env_def example_config_def)
  show ?thesis
    using initialize_keeps_default_interval[OF doc, of constructor "[]"]
    by (simp add: example_env_def example_config_def get_prop_def)
qed

section \<open>Facts about initialize\<close>

lemma select_frame:
  "eventHub (snd (select_network_client env nc args s)) = eventHub s \<and>
   timers (snd (select_network_client env nc args s)) = timers s \<and>
   calls (snd (select_network_client env nc args s)) = calls s \<and>
   now (snd (select_network_client env nc args s)) = now s \<and>
   client (snd (select_network_client env nc args s)) = client s"
  by (simp add: select_network_client_def Let_def split: list.splits sum.splits)

lemma setBlocksSyncTime_frame:
  "eventHub (snd (setBlocksSyncTime v s)) = eventHub s \<and>
   timers (snd (setBlocksSyncTime v s)) = timers s \<and>
   calls (snd (setBlocksSyncTime v s)) = calls s \<and>
   now (snd (setBlocksSyncTime v s)) = now s \<and>
   client (snd (setBlocksSyncTime v s)) = client s \<and>
   network_name (snd (setBlocksSyncTime v s)) = network_name s \<and>
   client_name (snd (setBlocksSyncTime v s)) = client_name s"
  by (simp add: setBlocksSyncTime_def split: sum.splits option.splits)

lemma configure_discovery_frame:
  "eventHub (configure_discovery s) = eventHub s \<and> timers (configure_discovery s) = timers s \<and>
   calls (configure_discovery s) = calls s \<and> now (configure_discovery s) = now s \<and>
   client (configure_discovery s) = client s \<and> network_name (configure_discovery s) = network_name s \<and>
   client_name (configure_discovery s) = client_name s \<and> blocksSyncTime (configure_discovery s) = blocksSyncTime s"
  by (simp add: configure_discovery_def hfc_config_set_def)

lemma initialize_cases:
  obtains (early) e s1 where "initialize env args s = (Threw e, s1)"
      and "eventHub s1 = eventHub s" and "timers s1 = timers s" and "calls s1 = calls s"
      and "now s1 = now s"
  | (build) doc nc s1 s2 where "config_document env = Inr doc"
      and "get_prop (inherited env) doc (NETWORK_CONFIGS env) = Inr nc"
      and "select_network_client env nc args s = (Returned, s1)"
      and "setBlocksSyncTime doc s1 = (Returned, s2)"
      and "initialize env args s = build_client_and_start env nc (configure_discovery s2)"
proof (cases "config_document env")
  case (Inl e)
  then have "initialize env args s = (Threw e, s)" by (simp add: initialize_def)
  then show ?thesis using early by simp
next
  case (Inr doc)
  show ?thesis
  proof (cases "get_prop (inherited env) doc (NETWORK_CONFIGS env)")
    case (Inl e)
    then have "initialize env args s = (Threw e, s)" using Inr by (simp add: initialize_def)
    then show ?thesis using early by simp
  next
    case nc: (Inr nc)
    obtain r1 s1 where sel: "select_network_client env nc args s = (r1, s1)" by fastforce
    have f1: "eventHub s1 = eventHub s" "timers s1 = timers s" "calls s1 = calls s" "now s1 = now s"
      using select_frame[of env nc args s] sel by simp_all
    show ?thesis
    proof (cases r1)
      case (Threw e)
      then have "initialize env args s = (Threw e, s1)"
        using Inr nc sel by (simp add: initialize_def)
      then show ?thesis using early f1 by simp
    next
      case Returned
      obtain r2 s2 where sb: "setBlocksSyncTime doc s1 = (r2, s2)" by fastforce
      have f2: "eventHub s2 = eventHub s" "timers s2 = timers s" "calls s2 = calls s" "now s2 = now s"
        using setBlocksSyncTime_frame[of doc s1] sb f1 by simp_all
      show ?thesis
      proof (cases r2)
        case (Threw e)
        then have "initialize env args s = (Threw e, s2)"
          using Inr nc sel Returned sb by (simp add: initialize_def)
        then show ?thesis using early f2 by simp
      next
        case r2: Returned
        have "initialize env args s = build_client_and_start env nc (configure_discovery s2)"
          using Inr nc sel Returned sb r2 by (simp add: initialize_def configure_discovery_def)
        then show ?thesis using build[OF Inr nc] sel Returned sb r2 by simp
      qed
    qed
  qed
qed

lemma register_names:
  "network_name (snd (register_and_start env c s)) = network_name s \<and>
   client_name (snd (register_and_start env c s)) = client_name s"
  by (simp add: register_and_start_def setTimeout_sync_def Let_def
      split: sum.splits option.splits prod.splits)

lemma build_names:
  "network_name (snd (build_client_and_start env nc s)) = network_name s \<and>
   client_name (snd (build_client_and_start env nc s)) = client_name s"
  by (simp add: build_client_and_start_def register_names Let_def
      split: sum.splits option.splits)

lemma initialize_names:
  assumes "config_document env = Inr doc"
    and "get_prop (inherited env) doc (NETWORK_CONFIGS env) = Inr nc"
    and "select_network_client env nc args s = (Returned, s1)"
  shows "network_name (snd (initialize env args s)) = network_name s1 \<and>
         client_name (snd (initialize env args s)) = client_name s1"
proof -
  obtain r2 s2 where sb: "setBlocksSyncTime doc s1 = (r2, s2)" by fastforce
  have n2: "network_name s2 = network_name s1" "client_name s2 = client_name s1"
    using setBlocksSyncTime_frame[of doc s1] sb by simp_all
  show ?thesis
  proof (cases r2)
    case (Threw e)
    then show ?thesis using assms sb n2 by (simp add: initialize_def)
  next
    case Returned
    then have "initialize env args s = build_client_and_start env nc (configure_discovery s2)"
      using assms sb by (simp add: initialize_def configure_discovery_def)
    then show ?thesis
      using build_names[of env nc "configure_discovery s2"] configure_discovery_frame[of s2] n2 by simp
  qed
qed

lemmas initialize_defs = initialize_def select_network_client_def setBlocksSyncTime_Obj
  get_prop_def object_prototype_def object_prototype_methods_def
  configure_discovery_def hfc_config_set_def build_client_and_start_def register_and_start_def
  setTimeout_sync_def timeout_delay_def get_prop_at_def first_key_def constructor_def

lemma started_eval:
  "fst (initialize example_env [] constructor) = Returned \<and>
   eventHub started = Some \<lparr>streams = [''chA'', ''chB'']\<rparr> \<and>
   client started = Some example_client \<and>
   timers started = [60000] \<and> blocksSyncTime started = 60000 \<and> now started = 0"
  by (simp add: started_def initialize_defs example_env_def example_config_def example_client_def)

lemma started_calls:
  "calls started =
     [SetOrgEnrolmentPath
        (Obj [(''name'', Str ''clientA''),
              (''clients'', Obj [(''clientA'', Obj []), (''clientB'', Obj [])])]),
      CreateFabricClient
        (Obj [(''name'', Str ''clientA''),
              (''clients'', Obj [(''clientA'', Obj []), (''clientB'', Obj [])])])
        (Str ''clientA''),
      SynchNetworkConfigToDB, NewFabricEvent, HubInitialize, SetTimeout 60000]"
  by (simp add: started_def initialize_defs example_env_def example_config_def example_client_def)

section \<open>Selecting the network and the client\<close>

lemma select_no_args:
  assumes "get_prop (inherited env) network ''name'' = Inr c"
  shows "select_network_client env (Obj ((n, network) # others)) [] s =
           (Returned, s\<lparr>network_name := Str n, client_name := c\<rparr>)"
  using assms
  by (simp add: select_network_client_def first_key_def get_prop_at_def get_prop_own)

lemma select_one_arg:
  assumes "map_of networks a = Some network"
    and "get_prop (inherited env) network ''clients'' = Inr clients"
    and "object_keys clients = Inr (c # others)"
  shows "select_network_client env (Obj networks) [a] s =
           (Returned, s\<lparr>network_name := Str a, client_name := Str c\<rparr>)"
  using assms
  by (simp add: select_network_client_def first_key_def get_prop_at_def get_prop_own)

lemma select_two_args:
  "select_network_client env nc (a # b # rest) s =
     (Returned, s\<lparr>network_name := Str a, client_name := Str b\<rparr>)"
  by (simp add: select_network_client_def)

text \<open>
  Claim C5. \<open>initialize\<close> resolves the network and the client by the number of
  arguments. With none, the network is the first key of the network configurations
  and the client is that network's \<open>name\<close>; with one, the network is the argument and
  the client is the first key under the \<open>clients\<close> of that network; with two, both are
  the arguments. First is the order in which \<open>Object.keys\<close> lists the keys. The
  selection stays in the object however the rest of \<open>initialize\<close> ends.
\<close>

theorem selection_rule:
  assumes "config_document env = Inr doc"
    and "get_prop (inherited env) doc (NETWORK_CONFIGS env) = Inr (Obj networks)"
  shows "(args = [] \<and> networks = (n, network) # others \<and> get_prop (inherited env) network ''name'' = Inr c \<longrightarrow>
            network_name (snd (initialize env args s)) = Str n \<and>
            client_name (snd (initialize env args s)) = c) \<and>
         (args = [a] \<and> map_of networks a = Some network' \<and>
          get_prop (inherited env) network' ''clients'' = Inr clients \<and> object_keys clients = Inr (c' # others') \<longrightarrow>
            network_name (snd (initialize env args s)) = Str a \<and>
            client_name (snd (initialize env args s)) = Str c') \<and>
         (args = [a, b] \<longrightarrow>
            network_name (snd (initialize env args s)) = Str a \<and>
            client_name (snd (initialize env args s)) = Str b)"
proof (intro conjI impI)
  assume h: "args = [] \<and> networks = (n, network) # others \<and> get_prop (inherited env) network ''name'' = Inr c"
  then have "select_network_client env (Obj networks) args s =
      (Returned, s\<lparr>network_name := Str n, client_name := c\<rparr>)"
    using select_no_args[where env = env and network = network and c = c] by simp
  from initialize_names[OF assms this]
  show "network_name (snd (initialize env args s)) = Str n"
    and "client_name (snd (initialize env args s)) = c" by simp_all
next
  assume h: "args = [a] \<and> map_of networks a = Some network' \<and>
          get_prop (inherited env) network' ''clients'' = Inr clients \<and> object_keys clients = Inr (c' # others')"
  then have "select_network_client env (Obj networks) args s =
      (Returned, s\<lparr>network_name := Str a, client_name := Str c'\<rparr>)"
    using select_one_arg[where env = env and networks = networks and a = a
        and network = network' and clients = clients and c = c' and others = others']
    by simp
  from initialize_names[OF assms this]
  show "network_name (snd (initialize env args s)) = Str a"
    and "client_name (snd (initialize env args s)) = Str c'" by simp_all
next
  assume h: "args = [a, b]"
  then have "select_network_client env (Obj networks) args s =
      (Returned, s\<lparr>network_name := Str a, client_name := Str b\<rparr>)"
    using select_two_args[where rest = "[]"] by simp
  from initialize_names[OF assms this]
  show "network_name (snd (initialize env args s)) = Str a"
    and "client_name (snd (initialize env args s)) = Str b" by simp_all
qed

lemma example_doc: "config_document example_env = Inr example_config"
  by (simp add: example_env_def)

lemma example_networks:
  "get_prop (inherited example_env) example_config (NETWORK_CONFIGS example_env) =
     Inr (Obj [(''net1'',
                 Obj [(''name'', Str ''clientA''),
                      (''clients'', Obj [(''clientA'', Obj []), (''clientB'', Obj [])])])])"
  by (simp add: example_env_def example_config_def get_prop_def)

text \<open>
  The three cases on the example configuration.
\<close>

theorem selection_rule_witness:
  "network_name (snd (initialize example_env [] constructor)) = Str ''net1'' \<and>
   client_name (snd (initialize example_env [] constructor)) = Str ''clientA'' \<and>
   network_name (snd (initialize example_env [''net1''] constructor)) = Str ''net1'' \<and>
   client_name (snd (initialize example_env [''net1''] constructor)) = Str ''clientA'' \<and>
   network_name (snd (initialize example_env [''net1'', ''clientB''] constructor)) = Str ''net1'' \<and>
   client_name (snd (initialize example_env [''net1'', ''clientB''] constructor)) = Str ''clientB''"
  using selection_rule[OF example_doc example_networks, where args = "[]" and s = constructor
      and n = "''net1''" and others = "[]" and c = "Str ''clientA''"
      and network = "Obj [(''name'', Str ''clientA''),
            (''clients'', Obj [(''clientA'', Obj []), (''clientB'', Obj [])])]"]
    selection_rule[OF example_doc example_networks, where args = "[''net1'']" and s = constructor
      and a = "''net1''" and c' = "''clientA''" and others' = "[''clientB'']"
      and clients = "Obj [(''clientA'', Obj []), (''clientB'', Obj [])]"
      and network' = "Obj [(''name'', Str ''clientA''),
            (''clients'', Obj [(''clientA'', Obj []), (''clientB'', Obj [])])]"]
    selection_rule[OF example_doc example_networks, where args = "[''net1'', ''clientB'']"
      and s = constructor and a = "''net1''" and b = "''clientB''"]
  by (simp add: get_prop_def)

lemma build_first_call:
  assumes "get_prop_at (inherited env) nc (network_name s) = Inr cfg"
  shows "\<exists>cs. calls (snd (build_client_and_start env nc s)) = calls s @ SetOrgEnrolmentPath cfg # cs"
  using assms
  by (auto simp: build_client_and_start_def register_and_start_def setTimeout_sync_def Let_def
      split: sum.splits option.splits prod.splits)

lemma select_one_arg_fails:
  assumes "get_prop (inherited env) (Obj networks) a = Inr network"
    and "network = Undefined \<or> get_prop (inherited env) network ''clients'' = Inr Undefined"
  shows "select_network_client env (Obj networks) [a] s =
           (Threw TypeError, s\<lparr>network_name := Str a\<rparr>)"
  using assms
  by (auto simp: select_network_client_def get_prop_at_def get_prop_Undefined)

text \<open>
  Claim C6, as amended. \<open>initialize\<close> does not check the names it is given against
  the configuration and has no configuration error of its own. What it reads for a
  network name that the configuration lacks is \<open>undefined\<close> or, for a name such as
  \<open>constructor\<close>, the member that the network configurations inherit. With one such
  argument, where what was read is \<open>undefined\<close> or has no \<open>clients\<close>, \<open>initialize\<close> raises
  a \<open>TypeError\<close> before any collaborator is called. With two arguments both names are
  taken as they are and what was read for the network is handed to
  \<open>FabricUtils.setOrgEnrolmentPath\<close>: the work on the client starts whether or not the
  names are in the configuration.
\<close>

theorem unknown_names_not_checked:
  assumes "config_document env = Inr (Obj kvs)"
    and "get_prop (inherited env) (Obj kvs) (NETWORK_CONFIGS env) = Inr (Obj networks)"
    and "get_prop (inherited env) (Obj networks) a = Inr network"
  shows "(map_of networks a = None \<longrightarrow>
            (case inherited env (Obj networks) a of None \<Rightarrow> Undefined | Some v \<Rightarrow> v) = network) \<and>
         (args = [a] \<and>
          (network = Undefined \<or> get_prop (inherited env) network ''clients'' = Inr Undefined) \<longrightarrow>
            initialize env args s = (Threw TypeError, s\<lparr>network_name := Str a\<rparr>)) \<and>
         (args = [a, b] \<and> ''toString'' \<notin> set (map fst kvs) \<longrightarrow>
            network_name (snd (initialize env args s)) = Str a \<and>
            client_name (snd (initialize env args s)) = Str b \<and>
            (\<exists>cs. calls (snd (initialize env args s)) =
               calls s @ SetOrgEnrolmentPath network # cs))"
proof (intro conjI impI)
  assume "map_of networks a = None"
  then show "(case inherited env (Obj networks) a of None \<Rightarrow> Undefined | Some v \<Rightarrow> v) = network"
    using assms(3) by (simp add: get_prop_def split: option.splits)
next
  assume h: "args = [a] \<and>
      (network = Undefined \<or> get_prop (inherited env) network ''clients'' = Inr Undefined)"
  then have "select_network_client env (Obj networks) args s =
      (Threw TypeError, s\<lparr>network_name := Str a\<rparr>)"
    using select_one_arg_fails[OF assms(3), of s] by simp
  then show "initialize env args s = (Threw TypeError, s\<lparr>network_name := Str a\<rparr>)"
    using assms(1,2) by (simp add: initialize_def)
next
  assume h: "args = [a, b] \<and> ''toString'' \<notin> set (map fst kvs)"
  let ?s1 = "s\<lparr>network_name := Str a, client_name := Str b\<rparr>"
  have sel: "select_network_client env (Obj networks) args s = (Returned, ?s1)"
    using h by (simp add: select_network_client_def)
  have init: "initialize env args s =
      build_client_and_start env (Obj networks) (configure_discovery ?s1)"
    using assms(1,2) sel h by (simp add: initialize_def setBlocksSyncTime_Obj)
  have f: "network_name (configure_discovery ?s1) = Str a"
    "calls (configure_discovery ?s1) = calls s"
    using configure_discovery_frame[of ?s1] by simp_all
  show "network_name (snd (initialize env args s)) = Str a"
    and "client_name (snd (initialize env args s)) = Str b"
    using initialize_names[OF assms(1,2) sel] by simp_all
  have "get_prop_at (inherited env) (Obj networks) (network_name (configure_discovery ?s1)) =
      Inr network"
    using f assms(3) by (simp add: get_prop_at_def)
  from build_first_call[OF this]
  show "\<exists>cs. calls (snd (initialize env args s)) = calls s @ SetOrgEnrolmentPath network # cs"
    using init f by simp
qed

lemma example_doc_obj:
  "config_document example_env =
     Inr (Obj [(''network-configs'',
           Obj [(''net1'',
                 Obj [(''name'', Str ''clientA''),
                      (''clients'', Obj [(''clientA'', Obj []), (''clientB'', Obj [])])])]),
          (''syncInterval'', Str ''5'')])"
  by (simp add: example_env_def example_config_def)

lemma example_networks_obj:
  "get_prop (inherited example_env)
     (Obj [(''network-configs'',
           Obj [(''net1'',
                 Obj [(''name'', Str ''clientA''),
                      (''clients'', Obj [(''clientA'', Obj []), (''clientB'', Obj [])])])]),
          (''syncInterval'', Str ''5'')]) (NETWORK_CONFIGS example_env) =
     Inr (Obj [(''net1'',
                 Obj [(''name'', Str ''clientA''),
                      (''clients'', Obj [(''clientA'', Obj []), (''clientB'', Obj [])])])])"
  by (simp add: example_env_def get_prop_def)

lemma example_nope:
  "get_prop (inherited example_env)
     (Obj [(''net1'',
            Obj [(''name'', Str ''clientA''),
                 (''clients'', Obj [(''clientA'', Obj []), (''clientB'', Obj [])])])]) ''nope'' =
     Inr Undefined"
  by (simp add: example_env_def get_prop_def object_prototype_def object_prototype_methods_def)

lemma example_constructor:
  "get_prop (inherited example_env)
     (Obj [(''net1'',
            Obj [(''name'', Str ''clientA''),
                 (''clients'', Obj [(''clientA'', Obj []), (''clientB'', Obj [])])])])
     ''constructor'' =
     Inr (Builtin ''function Object() { [native code] }'')"
  by (simp add: example_env_def get_prop_def object_prototype_def)

lemma example_constructor_clients:
  "get_prop (inherited example_env) (Builtin ''function Object() { [native code] }'') ''clients'' =
     Inr Undefined"
  by (simp add: example_env_def get_prop_def object_prototype_def)

text \<open>
  A network and a client that the example configuration does not have, and the
  network name \<open>constructor\<close>, which it inherits.
\<close>

theorem unknown_names_not_checked_witness:
  "initialize example_env [''nope''] constructor =
     (Threw TypeError, constructor\<lparr>network_name := Str ''nope''\<rparr>) \<and>
   initialize example_env [''constructor''] constructor =
     (Threw TypeError, constructor\<lparr>network_name := Str ''constructor''\<rparr>) \<and>
   network_name (snd (initialize example_env [''nope'', ''nobody''] constructor)) = Str ''nope'' \<and>
   client_name (snd (initialize example_env [''nope'', ''nobody''] constructor)) = Str ''nobody'' \<and>
   (\<exists>cs. calls (snd (initialize example_env [''nope'', ''nobody''] constructor)) =
      SetOrgEnrolmentPath Undefined # cs) \<and>
   (\<exists>cs. calls (snd (initialize example_env [''constructor'', ''nobody''] constructor)) =
      SetOrgEnrolmentPath (Builtin ''function Object() { [native code] }'') # cs)"
  using unknown_names_not_checked[OF example_doc_obj example_networks_obj example_nope,
      where args = "[''nope'']" and s = constructor]
    unknown_names_not_checked[OF example_doc_obj example_networks_obj example_constructor,
      where args = "[''constructor'']" and s = constructor]
    unknown_names_not_checked[OF example_doc_obj example_networks_obj example_nope,
      where args = "[''nope'', ''nobody'']" and b = "''nobody''" and s = constructor]
    unknown_names_not_checked[OF example_doc_obj example_networks_obj example_constructor,
      where args = "[''constructor'', ''nobody'']" and b = "''nobody''" and s = constructor]
    example_constructor_clients
  by (simp add: constructor_def example_env_def object_prototype_def
      object_prototype_methods_def)

text \<open>
  Claim C6 as the spec has it says that a name absent from the configuration makes
  \<open>initialize\<close> fail with a configuration error before any client work. For a client
  that the configuration of \<open>net1\<close> does not list, both FabricUtils calls are made,
  with the unknown name, and the error is the one thrown when no client comes back.
\<close>

theorem unknown_client_reaches_client_work:
  "fst (initialize strict_env [''net1'', ''nope''] constructor) = Threw (ExplorerError ''ERROR_2011'') \<and>
   calls (snd (initialize strict_env [''net1'', ''nope''] constructor)) =
     [SetOrgEnrolmentPath
        (Obj [(''name'', Str ''clientA''),
              (''clients'', Obj [(''clientA'', Obj []), (''clientB'', Obj [])])]),
      CreateFabricClient
        (Obj [(''name'', Str ''clientA''),
              (''clients'', Obj [(''clientA'', Obj []), (''clientB'', Obj [])])])
        (Str ''nope'')]"
  by (simp add: strict_env_def initialize_defs example_env_def example_config_def)

section \<open>Registration and the first timeout\<close>

lemma register_unregistered:
  assumes "synchNetworkConfigToDB env c = Inr False"
  shows "register_and_start env c s = (Returned, s\<lparr>calls := calls s @ [SynchNetworkConfigToDB]\<rparr>)"
  using assms by (simp add: register_and_start_def Let_def)

lemma build_unregistered:
  assumes "\<forall>c. synchNetworkConfigToDB env c = Inr False"
    and "build_client_and_start env nc s = (r, s')"
  shows "eventHub s' = eventHub s \<and> timers s' = timers s \<and>
         (\<exists>cs. calls s' = calls s @ cs \<and> NewFabricEvent \<notin> set cs \<and> HubInitialize \<notin> set cs \<and>
               (\<forall>d. SetTimeout d \<notin> set cs) \<and>
               (SynchNetworkConfigToDB \<in> set cs \<longrightarrow> r = Returned))"
  using assms
  by (auto simp: build_client_and_start_def register_unregistered Let_def
      split: sum.splits option.splits)

text \<open>
  Claim C7. When \<open>synchNetworkConfigToDB\<close> answers \<open>false\<close>, a run of \<open>initialize\<close> on a
  fresh platform that reaches the registration returns without an error, and no run
  builds or initializes an event hub or hands \<open>sync\<close> to \<open>setTimeout\<close>.
\<close>

theorem registration_failure_stops_initialize:
  assumes "\<forall>c. synchNetworkConfigToDB env c = Inr False"
    and "initialize env args constructor = (r, s')"
  shows "eventHub s' = None \<and> timers s' = [] \<and>
         NewFabricEvent \<notin> set (calls s') \<and> HubInitialize \<notin> set (calls s') \<and>
         (\<forall>d. SetTimeout d \<notin> set (calls s')) \<and>
         (SynchNetworkConfigToDB \<in> set (calls s') \<longrightarrow> r = Returned)"
proof (cases env args constructor rule: initialize_cases)
  case (early e s1)
  then show ?thesis using assms(2) by (simp add: constructor_def)
next
  case (build doc nc s1 s2)
  have f: "eventHub (configure_discovery s2) = None" "timers (configure_discovery s2) = []" "calls (configure_discovery s2) = []"
    using select_frame[of env nc args constructor] setBlocksSyncTime_frame[of doc s1]
      configure_discovery_frame[of s2] build(3,4)
    by (simp_all add: constructor_def)
  have "build_client_and_start env nc (configure_discovery s2) = (r, s')"
    using build(5) assms(2) by simp
  from build_unregistered[OF assms(1) this] show ?thesis using f by auto
qed

text \<open>
  With the registration of the example answering \<open>false\<close>.
\<close>

theorem registration_failure_stops_initialize_witness:
  "initialize unregistered_env [] constructor =
     (Returned, snd (initialize unregistered_env [] constructor)) \<and>
   SynchNetworkConfigToDB \<in> set (calls (snd (initialize unregistered_env [] constructor))) \<and>
   eventHub (snd (initialize unregistered_env [] constructor)) = None \<and>
   timers (snd (initialize unregistered_env [] constructor)) = [] \<and>
   NewFabricEvent \<notin> set (calls (snd (initialize unregistered_env [] constructor)))"
proof -
  have reg: "\<forall>c. synchNetworkConfigToDB unregistered_env c = Inr False"
    by (simp add: unregistered_env_def)
  have reached: "SynchNetworkConfigToDB \<in> set (calls (snd (initialize unregistered_env [] constructor)))"
    by (simp add: unregistered_env_def initialize_defs example_env_def example_config_def)
  obtain r s' where run: "initialize unregistered_env [] constructor = (r, s')"
    by fastforce
  from registration_failure_stops_initialize[OF reg run] reached run
  show ?thesis by simp
qed

lemma register_started:
  assumes "register_and_start env c s = (Returned, s')"
    and "eventHub s = None" and "eventHub s' \<noteq> None"
  shows "timers s' = timers s @ [now s + timeout_delay (blocksSyncTime s')] \<and> now s' = now s \<and>
         (\<exists>cs. calls s' = calls s @ cs \<and> HubSynchBlocks \<notin> set cs)"
  using assms
  by (auto simp: register_and_start_def setTimeout_sync_def Let_def
      split: sum.splits option.splits prod.splits if_splits)

lemma build_started:
  assumes "build_client_and_start env nc s = (Returned, s')"
    and "eventHub s = None" and "eventHub s' \<noteq> None"
  shows "timers s' = timers s @ [now s + timeout_delay (blocksSyncTime s')] \<and> now s' = now s \<and>
         (\<exists>cs. calls s' = calls s @ cs \<and> HubSynchBlocks \<notin> set cs)"
proof -
  from assms obtain cfg cfg' c where
    reg: "register_and_start env c
       (s\<lparr>calls := calls s @ [SetOrgEnrolmentPath cfg],
          client_configs := cfg',
          calls := calls s @ [SetOrgEnrolmentPath cfg] @ [CreateFabricClient cfg' (client_name s)],
          client := Some c\<rparr>) = (Returned, s')"
    by (auto simp: build_client_and_start_def Let_def split: sum.splits option.splits)
  from register_started[OF reg] assms(2,3) show ?thesis by auto
qed

lemma initialize_started:
  assumes "initialize env args s = (Returned, s')"
    and "eventHub s = None" and "eventHub s' \<noteq> None"
  shows "timers s' = timers s @ [now s + timeout_delay (blocksSyncTime s')] \<and>
         (\<exists>cs. calls s' = calls s @ cs \<and> HubSynchBlocks \<notin> set cs)"
proof (cases env args s rule: initialize_cases)
  case (early e s1)
  then show ?thesis using assms(1) by simp
next
  case (build doc nc s1 s2)
  have f: "eventHub (configure_discovery s2) = None" "timers (configure_discovery s2) = timers s"
    "calls (configure_discovery s2) = calls s" "now (configure_discovery s2) = now s"
    using select_frame[of env nc args s] setBlocksSyncTime_frame[of doc s1]
      configure_discovery_frame[of s2] build(3,4) assms(2)
    by simp_all
  have "build_client_and_start env nc (configure_discovery s2) = (Returned, s')"
    using build(5) assms(1) by simp
  from build_started[OF this f(1) assms(3)] show ?thesis using f by auto
qed

lemma due_timer_None: "\<forall>d \<in> set (timers s). t < d \<Longrightarrow> due_timer t s = None"
proof -
  assume a: "\<forall>d \<in> set (timers s). t < d"
  then have "filter (\<lambda>d. d \<le> t) (timers s) = []"
    by (auto simp: filter_empty_conv)
  then show ?thesis by (simp add: due_timer_def)
qed

lemma calls_fire: "\<exists>cs. calls (fire env d s) = calls s @ cs"
  by (simp add: fire_def sync_def setTimeout_sync_def Let_def split: option.splits)

lemma calls_run_timers: "set (calls s) \<subseteq> set (calls (run_timers env t s))"
proof (induction env t s rule: run_timers.induct)
  case (1 env t s)
  show ?case
  proof (cases "due_timer t s")
    case None
    then show ?thesis by (simp add: run_timers.simps[of env t s])
  next
    case (Some d)
    obtain cs where "calls (fire env d s) = calls s @ cs" using calls_fire by blast
    then have "set (calls s) \<subseteq> set (calls (fire env d s))" by auto
    then show ?thesis using 1[OF Some] Some by (auto simp: run_timers.simps[of env t s])
  qed
qed

lemma fire_calls_hub:
  assumes "eventHub s \<noteq> None"
  shows "HubSynchBlocks \<in> set (calls (fire env d s))"
  using assms by (auto simp: fire_def sync_def setTimeout_sync_def Let_def split: option.splits)

lemma no_pass_before_due:
  assumes "timers s = [d]" and "t < d"
  shows "calls (run_timers env t s) = calls s"
proof -
  have "due_timer t s = None" using assms by (intro due_timer_None) simp
  then show ?thesis by (simp add: run_timers.simps[of env t s])
qed

lemma pass_when_due:
  assumes "timers s = [d]" and "eventHub s \<noteq> None"
  shows "HubSynchBlocks \<in> set (calls (run_timers env d s))"
proof -
  have "due_timer d s = Some d" using assms(1) by (simp add: due_timer_def)
  then have "run_timers env d s = run_timers env d (fire env d s)"
    by (simp add: run_timers.simps[of env d s])
  moreover have "HubSynchBlocks \<in> set (calls (fire env d s))"
    using fire_calls_hub[OF assms(2)] .
  ultimately show ?thesis using calls_run_timers[of "fire env d s" env d] by auto
qed

text \<open>
  Claim C8, as amended. When \<open>initialize\<close> has returned with the event hub in place, on
  a platform that had no hub and no timeout pending, it has made no call of
  \<open>eventHub.synchBlocks\<close> and has handed \<open>sync\<close> to \<open>setTimeout\<close> with the delay
  \<open>blocksSyncTime\<close>; the runtime makes the first call when that timeout is due and not
  before. For an interval from 1 to 2147483647 ms the timeout is due one full
  interval after \<open>initialize\<close>; for any other interval Node.js takes the delay as 1 ms.
  For a configuration that is an object the interval is the one the platform had
  before \<open>initialize\<close>, 60000 ms after the constructor.
\<close>

theorem first_tick_when_timeout_due:
  assumes "initialize env args s = (Returned, s')"
    and "eventHub s = None" and "timers s = []" and "HubSynchBlocks \<notin> set (calls s)"
    and "eventHub s' \<noteq> None"
  shows "timers s' = [now s + timeout_delay (blocksSyncTime s')] \<and>
         HubSynchBlocks \<notin> set (calls s') \<and>
         (\<forall>t. t < now s + timeout_delay (blocksSyncTime s') \<longrightarrow>
              HubSynchBlocks \<notin> set (calls (run_timers env t s'))) \<and>
         HubSynchBlocks \<in> set (calls (run_timers env (now s + timeout_delay (blocksSyncTime s')) s')) \<and>
         (1 \<le> blocksSyncTime s' \<and> blocksSyncTime s' \<le> 2147483647 \<longrightarrow>
              int (timeout_delay (blocksSyncTime s')) = blocksSyncTime s' \<and>
              (\<forall>t. int t < int (now s) + blocksSyncTime s' \<longrightarrow>
                   HubSynchBlocks \<notin> set (calls (run_timers env t s')))) \<and>
         (blocksSyncTime s' < 1 \<or> 2147483647 < blocksSyncTime s' \<longrightarrow>
              timeout_delay (blocksSyncTime s') = 1) \<and>
         ((\<exists>kvs. config_document env = Inr (Obj kvs)) \<longrightarrow>
              blocksSyncTime s' = blocksSyncTime s) \<and>
         blocksSyncTime constructor = 60000"
proof -
  let ?due = "now s + timeout_delay (blocksSyncTime s')"
  have shape: "timers s' = [?due]" "HubSynchBlocks \<notin> set (calls s')"
    using initialize_started[OF assms(1,2,5)] assms(3,4) by auto
  have before: "HubSynchBlocks \<notin> set (calls (run_timers env t s'))" if "t < ?due" for t
    using no_pass_before_due[OF shape(1) that, of env] shape(2) by simp
  have at: "HubSynchBlocks \<in> set (calls (run_timers env ?due s'))"
    using pass_when_due[OF shape(1) assms(5)] .
  have kept: "blocksSyncTime s' = blocksSyncTime s"
    if "\<exists>kvs. config_document env = Inr (Obj kvs)"
  proof -
    from that obtain kvs where "config_document env = Inr (Obj kvs)" by blast
    from initialize_Obj_blocksSyncTime[OF this, of args s]
    show ?thesis using assms(1) by simp
  qed
  have range: "int (timeout_delay (blocksSyncTime s')) = blocksSyncTime s'"
    if "1 \<le> blocksSyncTime s' \<and> blocksSyncTime s' \<le> 2147483647"
    using that by (simp add: timeout_delay_def)
  have full: "HubSynchBlocks \<notin> set (calls (run_timers env t s'))"
    if r: "1 \<le> blocksSyncTime s' \<and> blocksSyncTime s' \<le> 2147483647"
      and t: "int t < int (now s) + blocksSyncTime s'" for t
  proof -
    have "t < ?due" using range[OF r] t by linarith
    then show ?thesis by (rule before)
  qed
  have clamp: "timeout_delay (blocksSyncTime s') = 1"
    if "blocksSyncTime s' < 1 \<or> 2147483647 < blocksSyncTime s'"
    using that by (auto simp: timeout_delay_def)
  have dflt: "blocksSyncTime constructor = 60000" by (simp add: constructor_def)
  show ?thesis using shape before at kept range full clamp dflt by blast
qed

lemma constructor_fresh:
  "eventHub constructor = None \<and> timers constructor = [] \<and> calls constructor = [] \<and>
   now constructor = 0 \<and> blocksSyncTime constructor = 60000"
  by (simp add: constructor_def)

lemma started_returned: "initialize example_env [] constructor = (Returned, started)"
  using started_eval by (simp add: started_def prod_eq_iff)

lemma preset_eval:
  "eventHub preset = None \<and> timers preset = [] \<and> calls preset = [] \<and> now preset = 0 \<and>
   blocksSyncTime preset = 2147520000"
  by (simp add: preset_def setBlocksSyncTime_def parse_defs constructor_def)

lemma overdue_eval:
  "fst (initialize example_env [] preset) = Returned \<and>
   eventHub overdue = Some \<lparr>streams = [''chA'', ''chB'']\<rparr> \<and>
   timers overdue = [1] \<and> blocksSyncTime overdue = 2147520000"
  by (simp add: overdue_def preset_def setBlocksSyncTime_def parse_defs initialize_defs
      example_env_def example_config_def example_client_def)

lemma overdue_returned: "initialize example_env [] preset = (Returned, overdue)"
  using overdue_eval by (simp add: overdue_def prod_eq_iff)

text \<open>
  On the example: with the default interval nothing at 59999 ms and the first pass at
  60000 ms; with the interval set to 35792 minutes beforehand, the first pass at 1 ms.
\<close>

theorem first_tick_when_timeout_due_witness:
  "timers started = [60000] \<and>
   HubSynchBlocks \<notin> set (calls started) \<and>
   HubSynchBlocks \<notin> set (calls (run_timers example_env 59999 started)) \<and>
   HubSynchBlocks \<in> set (calls (run_timers example_env 60000 started)) \<and>
   blocksSyncTime started = 60000 \<and>
   blocksSyncTime overdue = 2147520000 \<and>
   timers overdue = [1] \<and>
   HubSynchBlocks \<notin> set (calls (run_timers example_env 0 overdue))"
proof -
  have hub: "eventHub started \<noteq> None" "eventHub overdue \<noteq> None"
    using started_eval overdue_eval by simp_all
  have obj: "\<exists>kvs. config_document example_env = Inr (Obj kvs)"
    by (simp add: example_env_def example_config_def)
  have t: "(59999::nat) < 60000" "(0::nat) < 1" by simp_all
  have d: "timeout_delay 60000 = 60000" "timeout_delay 2147520000 = 1"
    by (simp_all add: timeout_delay_def)
  have a: "timers started = [60000] \<and> HubSynchBlocks \<notin> set (calls started) \<and>
      HubSynchBlocks \<notin> set (calls (run_timers example_env 59999 started)) \<and>
      HubSynchBlocks \<in> set (calls (run_timers example_env 60000 started)) \<and>
      blocksSyncTime started = 60000"
    using first_tick_when_timeout_due[OF started_returned _ _ _ hub(1)] constructor_fresh obj t d
      started_eval
    by auto
  have b: "blocksSyncTime overdue = 2147520000 \<and> timers overdue = [1] \<and>
      HubSynchBlocks \<notin> set (calls (run_timers example_env 0 overdue))"
    using first_tick_when_timeout_due[OF overdue_returned _ _ _ hub(2)] preset_eval obj t d
      overdue_eval
    by auto
  show ?thesis using a b by simp
qed

text \<open>
  Claim C8 as the spec has it says that no pass occurs before \<open>blocksSyncTime\<close> ms have
  elapsed after \<open>initialize\<close>. With the interval set to 35792 minutes, 2147520000 ms,
  before \<open>initialize\<close>, the delay is beyond what Node.js takes and the first pass comes
  after 1 ms.
\<close>

theorem first_tick_after_one_millisecond:
  "blocksSyncTime preset = 2147520000 \<and>
   fst (initialize example_env [] preset) = Returned \<and>
   blocksSyncTime overdue = 2147520000 \<and>
   HubSynchBlocks \<notin> set (calls overdue) \<and>
   HubSynchBlocks \<in> set (calls (run_timers example_env 1 overdue))"
proof -
  have hub: "eventHub overdue \<noteq> None" and tm: "timers overdue = [1]"
    using overdue_eval by simp_all
  have "\<exists>cs. calls overdue = calls preset @ cs \<and> HubSynchBlocks \<notin> set cs"
    using initialize_started[OF overdue_returned _ hub] preset_eval by simp
  then have "HubSynchBlocks \<notin> set (calls overdue)" using preset_eval by auto
  then show ?thesis
    using pass_when_due[OF tm hub, of example_env] preset_eval overdue_eval by simp
qed

section \<open>destroy\<close>








section \<open>The channel loop\<close>







lemma method_loop:
  assumes "client s = Some c" and "eventHub s = Some h"
  shows "isChannelEventHubConnected env s =
           ((case snd (channel_loop env (getChannels c)) of None \<Rightarrow> Returned | Some e \<Rightarrow> Threw e),
            s\<lparr>calls := calls s @ fst (channel_loop env (getChannels c))\<rparr>)"
  using assms
  by (cases "getChannels c") (auto simp: isChannelEventHubConnected_def split: prod.splits)





lemma loop_append_failure:
  assumes "\<forall>(n, x) \<in> set before. hub_isChannelEventHubConnected env n \<longrightarrow> synchBlocks env n x = None"
    and "hub_isChannelEventHubConnected env a" and "synchBlocks env a ch = Some e"
  shows "channel_loop env (before @ (a, ch) # after) =
           (concat (map (visit env) before) @
              [IsChannelEventHubConnected a True, SynchBlocks a ch], Some e)"
  using assms
  by (induction before) (auto simp: visit_def split: prod.splits)

text \<open>
  Claim C3, as amended. A synchronization that fails for channel \<open>a\<close> ends the loop
  there: the channels before \<open>a\<close> have had their visit, \<open>a\<close> has had its \<open>synchBlocks\<close>,
  no channel after \<open>a\<close> is visited in that run, and the error is the outcome of
  \<open>isChannelEventHubConnected\<close>. The timer callback does not wait for the pass it
  starts: when its call of \<open>eventHub.synchBlocks()\<close> has returned it hands itself to
  \<open>setTimeout\<close> again, one interval later.
\<close>

theorem sync_failure_ends_loop:
  assumes "client s = Some c" and "eventHub s = Some h"
    and "getChannels c = before @ (a, ch) # after"
    and "\<forall>(n, x) \<in> set before. hub_isChannelEventHubConnected env n \<longrightarrow> synchBlocks env n x = None"
    and "hub_isChannelEventHubConnected env a" and "synchBlocks env a ch = Some e"
  shows "isChannelEventHubConnected env s =
           (Threw e,
            s\<lparr>calls := calls s @ concat (map (visit env) before) @
                 [IsChannelEventHubConnected a True, SynchBlocks a ch]\<rparr>) \<and>
         (hub_synchBlocks env (now s) = None \<longrightarrow>
            fst (sync env s) = Returned \<and>
            timers (snd (sync env s)) = timers s @ [now s + timeout_delay (blocksSyncTime s)])"
proof -
  have "channel_loop env (getChannels c) =
      (concat (map (visit env) before) @ [IsChannelEventHubConnected a True, SynchBlocks a ch], Some e)"
    using loop_append_failure[OF assms(4,5,6)] assms(3) by simp
  then have "isChannelEventHubConnected env s =
           (Threw e,
            s\<lparr>calls := calls s @ concat (map (visit env) before) @
                 [IsChannelEventHubConnected a True, SynchBlocks a ch]\<rparr>)"
    using method_loop[OF assms(1,2), of env] by simp
  moreover have "hub_synchBlocks env (now s) = None \<longrightarrow>
            fst (sync env s) = Returned \<and>
            timers (snd (sync env s)) = timers s @ [now s + timeout_delay (blocksSyncTime s)]"
    using assms(2) by (simp add: sync_def setTimeout_sync_def Let_def)
  ultimately show ?thesis by simp
qed

text \<open>
  With the synchronization of the second channel failing.
\<close>

theorem sync_failure_ends_loop_witness:
  "isChannelEventHubConnected late_failure_env started =
     (Threw (CollaboratorError ''sync''),
      started\<lparr>calls := calls started @
        [IsChannelEventHubConnected ''chA'' True, SynchBlocks ''chA'' 1,
         IsChannelEventHubConnected ''chB'' True, SynchBlocks ''chB'' 2]\<rparr>) \<and>
   fst (sync late_failure_env started) = Returned \<and>
   timers (snd (sync late_failure_env started)) = [60000, 60000]"
proof -
  have c: "client started = Some example_client"
    and h: "eventHub started = Some \<lparr>streams = [''chA'', ''chB'']\<rparr>"
    using started_eval by simp_all
  have es: "getChannels example_client = [(''chA'', 1)] @ (''chB'', 2) # []"
    by (simp add: example_client_def)
  have b: "\<forall>(n, x) \<in> set [(''chA'', 1::nat)].
      hub_isChannelEventHubConnected late_failure_env n \<longrightarrow> synchBlocks late_failure_env n x = None"
    by (simp add: late_failure_env_def example_env_def)
  have a: "hub_isChannelEventHubConnected late_failure_env ''chB''"
    by (simp add: late_failure_env_def example_env_def)
  have f: "synchBlocks late_failure_env ''chB'' 2 = Some (CollaboratorError ''sync'')"
    by (simp add: late_failure_env_def example_env_def)
  have t: "hub_synchBlocks late_failure_env (now started) = None"
    by (simp add: late_failure_env_def example_env_def)
  show ?thesis
    using sync_failure_ends_loop[OF c h es b a f] t started_eval
    by (simp add: visit_def timeout_delay_def late_failure_env_def example_env_def)
qed

text \<open>
  Claim C3 as the spec has it says that the failure for one channel does not keep the
  other channels of the tick from their synchronization or reconnection. With the
  synchronization of \<open>chA\<close> failing, the disconnected \<open>chB\<close> behind it is not
  reconnected.
\<close>

theorem failed_sync_skips_later_channels:
  "fst (isChannelEventHubConnected failing_env started) = Threw (CollaboratorError ''sync'') \<and>
   calls (snd (isChannelEventHubConnected failing_env started)) =
     calls started @ [IsChannelEventHubConnected ''chA'' True, SynchBlocks ''chA'' 1] \<and>
   getChannels example_client = [(''chA'', 1), (''chB'', 2)] \<and>
   ConnectChannelEventHub ''chB'' \<notin> set (calls (snd (isChannelEventHubConnected failing_env started))) \<and>
   SynchBlocks ''chB'' 2 \<notin> set (calls (snd (isChannelEventHubConnected failing_env started)))"
  using started_eval started_calls
  by (simp add: isChannelEventHubConnected_def example_client_def failing_env_def example_env_def)

section \<open>Overlapping loops\<close>

text \<open>
  The loop cut at its first \<open>await\<close> and resumed is the loop run in one go.
\<close>

lemma channel_loop_resume:
  "channel_loop env es =
     (case run_to_await env es of
        (cs, None) \<Rightarrow> (cs, None)
      | (cs, Some (Awaiting n ch rest)) \<Rightarrow>
          (case synchBlocks env n ch of
             Some e \<Rightarrow> (cs, Some e)
           | None \<Rightarrow> (case channel_loop env rest of (cs', r) \<Rightarrow> (cs @ cs', r))))"
proof (induction es)
  case Nil
  then show ?case by simp
next
  case (Cons entry es)
  obtain n ch where entry: "entry = (n, ch)" by (cases entry)
  show ?case
  proof (cases "hub_isChannelEventHubConnected env n")
    case True
    then show ?thesis using entry by (simp split: option.splits prod.splits)
  next
    case False
    then show ?thesis
      using entry Cons.IH
      by (auto split: option.splits prod.splits suspended.splits)
  qed
qed

lemma run_to_await_first:
  "map awaited (resume (snd (run_to_await env es))) =
     map fst (take 1 (filter (\<lambda>entry. hub_isChannelEventHubConnected env (fst entry)) es))"
  by (induction es) (auto simp: resume_def split: prod.splits)

lemma resume_length: "length (resume k) \<le> 1"
  by (simp add: resume_def split: option.splits)

lemma step_length:
  "length (fst (step env es st ev)) \<le> length (fst st) + (if ev = Tick then 1 else 0)"
proof (cases st)
  case (Pair ws made)
  show ?thesis
  proof (cases ev)
    case Tick
    then show ?thesis using Pair resume_length[of "snd (run_to_await env es)"]
      by (simp split: prod.splits) (metis resume_length snd_conv)
  next
    case (Settled i failure)
    show ?thesis
    proof (cases "i < length ws")
      case False
      then show ?thesis using Pair Settled by simp
    next
      case True
      obtain n ch rest where w: "ws ! i = Awaiting n ch rest" by (cases "ws ! i")
      have l: "length (take i ws) + length (drop (Suc i) ws) + 1 = length ws" using True by simp
      show ?thesis
      proof (cases failure)
        case (Some e)
        then show ?thesis using Pair Settled True w l by simp
      next
        case None
        obtain cs k where r: "run_to_await env rest = (cs, k)" by fastforce
        have "length (resume k) \<le> 1" by (rule resume_length)
        then show ?thesis using Pair Settled True w l None r by simp
      qed
    qed
  qed
qed

lemma run_events_snoc:
  "run_events env es (evs @ [ev]) = step env es (run_events env es evs) ev"
  by (simp add: run_events_def)

lemma in_flight_bound:
  "length (in_flight (run_events env es evs)) \<le> count_list evs Tick"
proof (induction evs rule: rev_induct)
  case Nil
  then show ?case by (simp add: run_events_def in_flight_def)
next
  case (snoc ev evs)
  have "length (fst (step env es (run_events env es evs) ev)) \<le>
      length (fst (run_events env es evs)) + (if ev = Tick then 1 else 0)"
    by (rule step_length)
  then show ?case
    using snoc by (cases "ev = Tick") (simp_all add: run_events_snoc in_flight_def)
qed

text \<open>
  Claim C1, as amended. The loop keeps no record of the synchronizations in flight.
  A tick starts one for the first channel, in iteration order, that reports
  connected, whatever is in flight already; each loop waits for one synchronization
  at a time, so that there are never more in flight than ticks have fired.
\<close>

theorem ticks_overlap:
  "in_flight (step env entries st Tick) =
     in_flight st @ map fst (take 1 (filter (\<lambda>entry. hub_isChannelEventHubConnected env (fst entry)) entries)) \<and>
   length (in_flight (run_events env entries evs)) \<le> count_list evs Tick"
proof -
  obtain ws made where st: "st = (ws, made)" by (cases st)
  have "in_flight (step env entries st Tick) =
     in_flight st @ map awaited (resume (snd (run_to_await env entries)))"
    using st by (simp add: in_flight_def split: prod.splits)
  then show ?thesis using run_to_await_first[of env entries] in_flight_bound[of env entries evs]
    by simp
qed

text \<open>
  Claim C1 as the spec has it says that a tick skips a channel whose earlier
  synchronization has not finished. Two ticks in a row, nothing settled between
  them: \<open>synchBlocks\<close> has been called twice for \<open>chA\<close> and both runs are in flight.
\<close>

theorem second_tick_starts_second_run:
  "in_flight (run_events example_env (getChannels example_client) [Tick, Tick]) = [''chA'', ''chA''] \<and>
   snd (run_events example_env (getChannels example_client) [Tick, Tick]) =
     [IsChannelEventHubConnected ''chA'' True, SynchBlocks ''chA'' 1,
      IsChannelEventHubConnected ''chA'' True, SynchBlocks ''chA'' 1]"
  by (simp add: run_events_def in_flight_def resume_def example_env_def example_client_def)

end
